theory Spec2Isabelle
  imports Complex_Main
begin

section \<open>The map performance layer of the dashboard\<close>

text \<open>
  A shallow embedding of \<^verbatim>\<open>Dashboard/static/js/map-performance.js\<close> (CacheManager,
  LazyLoader, BatchProcessor) and of the parts of
  \<^verbatim>\<open>Dashboard/static/js/map-renderer.js\<close> (OptimizedMapRenderer) that drive them.

  Conventions of the embedding:
  \<^item> every reading of \<^verbatim>\<open>Date.now()\<close> is an explicit argument (milliseconds, an \<open>int\<close>);
  \<^item> every reading of \<^verbatim>\<open>Math.random()\<close> is taken from an explicit function argument;
  \<^item> a JavaScript \<^verbatim>\<open>Map\<close> is a HOL map, a thrown exception is the \<open>Inl\<close> of a sum;
  \<^item> an array that may hold \<^verbatim>\<open>undefined\<close> (a hole, or a null element) is a list of
    options, \<open>None\<close> being the missing element.
\<close>

datatype js_error = TypeError | Error string

subsection \<open>CacheManager\<close>

text \<open>
  \<^verbatim>\<open>setData\<close> stores the caller's object itself and writes a property into it, so the
  objects live in an explicit store: \<open>heap\<close> maps a reference to the object it denotes.
  An object has its \<^verbatim>\<open>timestamp\<close> property (\<open>None\<close> while it has none) and the rest of
  its properties, \<open>props\<close>. The two other caches hold fresh wrapper objects that nobody
  else can reach, so their entries are plain values.
\<close>

type_synonym ref = nat

record 'a js_object =
  timestamp :: "int option"
  props :: 'a

record 'i map_entry =
  inst :: 'i
  inst_timestamp :: int

record 'v viz_entry =
  data :: 'v
  data_timestamp :: int

record ('a, 'i, 'v) CacheManager =
  heap :: "ref \<Rightarrow> 'a js_object"
  dataCache :: "string \<rightharpoonup> ref"
  mapCache :: "string \<rightharpoonup> 'i map_entry"
  visualizationCache :: "string \<rightharpoonup> 'v viz_entry"
  CACHE_DURATION :: int

text \<open>The constructor: three empty maps and a duration of five minutes.\<close>

definition CacheManager_new :: "(ref \<Rightarrow> 'a js_object) \<Rightarrow> ('a, 'i, 'v) CacheManager" where
  "CacheManager_new h =
     \<lparr>heap = h, dataCache = Map.empty, mapCache = Map.empty,
      visualizationCache = Map.empty, CACHE_DURATION = 5 * 60 * 1000\<rparr>"

text \<open>
  One pass of the loop in \<^verbatim>\<open>cleanup\<close> over one cache: the entries for which
  \<^verbatim>\<open>value.timestamp < cutoff\<close> holds are deleted. A missing timestamp compares as
  \<^verbatim>\<open>undefined < cutoff\<close>, which is false.
\<close>

definition sweep :: "('e \<Rightarrow> bool) \<Rightarrow> (string \<rightharpoonup> 'e) \<Rightarrow> (string \<rightharpoonup> 'e)" where
  "sweep stale m = (\<lambda>k. case m k of None \<Rightarrow> None | Some e \<Rightarrow> if stale e then None else Some e)"

definition before :: "int option \<Rightarrow> int \<Rightarrow> bool" where
  "before t cutoff = (case t of None \<Rightarrow> False | Some ts \<Rightarrow> ts < cutoff)"

definition cleanup :: "int \<Rightarrow> ('a, 'i, 'v) CacheManager \<Rightarrow> ('a, 'i, 'v) CacheManager" where
  "cleanup now c =
     (let cutoff = now - CACHE_DURATION c in
      c\<lparr>dataCache := sweep (\<lambda>r. before (timestamp (heap c r)) cutoff) (dataCache c),
        mapCache := sweep (\<lambda>e. inst_timestamp e < cutoff) (mapCache c),
        visualizationCache := sweep (\<lambda>e. data_timestamp e < cutoff) (visualizationCache c)\<rparr>)"

text \<open>
  \<^verbatim>\<open>setData(key, data)\<close>: \<open>now\<close> is the clock reading of \<^verbatim>\<open>setData\<close> itself, \<open>now'\<close>
  the later reading inside \<^verbatim>\<open>cleanup\<close>. The argument is an object reference (on
  anything else the assignment of the property throws in the strict code of a class body).
\<close>

definition setData ::
  "int \<Rightarrow> int \<Rightarrow> string \<Rightarrow> ref \<Rightarrow> ('a, 'i, 'v) CacheManager \<Rightarrow> ('a, 'i, 'v) CacheManager" where
  "setData now now' key r c =
     cleanup now'
       (c\<lparr>heap := (heap c)(r := (heap c r)\<lparr>timestamp := Some now\<rparr>),
          dataCache := (dataCache c)(key \<mapsto> r)\<rparr>)"

text \<open>
  \<^verbatim>\<open>getData(key)\<close> returns the stored reference, or \<open>None\<close> for \<^verbatim>\<open>null\<close>. The
  difference \<^verbatim>\<open>Date.now() - data.timestamp\<close> is NaN for a missing timestamp, and the
  comparison is then false.
\<close>

definition fresh :: "int \<Rightarrow> int option \<Rightarrow> int \<Rightarrow> bool" where
  "fresh now t duration = (case t of None \<Rightarrow> False | Some ts \<Rightarrow> now - ts < duration)"

definition getData ::
  "int \<Rightarrow> string \<Rightarrow> ('a, 'i, 'v) CacheManager \<Rightarrow> ref option \<times> ('a, 'i, 'v) CacheManager" where
  "getData now key c =
     (case dataCache c key of
        None \<Rightarrow> (None, c)
      | Some r \<Rightarrow>
          if fresh now (timestamp (heap c r)) (CACHE_DURATION c) then (Some r, c)
          else (None, c\<lparr>dataCache := (dataCache c)(key := None)\<rparr>))"

definition setMapInstance ::
  "int \<Rightarrow> string \<Rightarrow> 'i \<Rightarrow> ('a, 'i, 'v) CacheManager \<Rightarrow> ('a, 'i, 'v) CacheManager" where
  "setMapInstance now key mapInstance c =
     c\<lparr>mapCache := (mapCache c)(key \<mapsto> \<lparr>inst = mapInstance, inst_timestamp = now\<rparr>)\<rparr>"

definition getMapInstance ::
  "int \<Rightarrow> string \<Rightarrow> ('a, 'i, 'v) CacheManager \<Rightarrow> 'i option \<times> ('a, 'i, 'v) CacheManager" where
  "getMapInstance now key c =
     (case mapCache c key of
        None \<Rightarrow> (None, c)
      | Some cached \<Rightarrow>
          if now - inst_timestamp cached < CACHE_DURATION c then (Some (inst cached), c)
          else (None, c\<lparr>mapCache := (mapCache c)(key := None)\<rparr>))"

definition setVisualization ::
  "int \<Rightarrow> string \<Rightarrow> 'v \<Rightarrow> ('a, 'i, 'v) CacheManager \<Rightarrow> ('a, 'i, 'v) CacheManager" where
  "setVisualization now key vizData c =
     c\<lparr>visualizationCache :=
         (visualizationCache c)(key \<mapsto> \<lparr>data = vizData, data_timestamp = now\<rparr>)\<rparr>"

definition getVisualization ::
  "int \<Rightarrow> string \<Rightarrow> ('a, 'i, 'v) CacheManager \<Rightarrow> 'v option \<times> ('a, 'i, 'v) CacheManager" where
  "getVisualization now key c =
     (case visualizationCache c key of
        None \<Rightarrow> (None, c)
      | Some cached \<Rightarrow>
          if now - data_timestamp cached < CACHE_DURATION c then (Some (data cached), c)
          else (None, c\<lparr>visualizationCache := (visualizationCache c)(key := None)\<rparr>))"

definition clear :: "('a, 'i, 'v) CacheManager \<Rightarrow> ('a, 'i, 'v) CacheManager" where
  "clear c = c\<lparr>dataCache := Map.empty, mapCache := Map.empty, visualizationCache := Map.empty\<rparr>"

text \<open>
  A holder of a reference changes the object it denotes; the cache is not involved.
\<close>

definition mutate ::
  "ref \<Rightarrow> ('a js_object \<Rightarrow> 'a js_object) \<Rightarrow> ('a, 'i, 'v) CacheManager \<Rightarrow> ('a, 'i, 'v) CacheManager" where
  "mutate r f c = c\<lparr>heap := (heap c)(r := f (heap c r))\<rparr>"

text \<open>The age of the entries of the three caches at a given time, for stating expiry.\<close>

definition holds_older_than ::
  "int \<Rightarrow> ('a, 'i, 'v) CacheManager \<Rightarrow> string \<Rightarrow> bool" where
  "holds_older_than now c k =
     ((case dataCache c k of None \<Rightarrow> False
        | Some r \<Rightarrow> before (timestamp (heap c r)) (now - CACHE_DURATION c))
      \<or> (case mapCache c k of None \<Rightarrow> False
        | Some e \<Rightarrow> inst_timestamp e < now - CACHE_DURATION c)
      \<or> (case visualizationCache c k of None \<Rightarrow> False
        | Some e \<Rightarrow> data_timestamp e < now - CACHE_DURATION c))"

text \<open>
  Concrete stores for runs: objects without properties; objects with one property, and
  a holder's change of it; a cache whose visualization entry was written at time 0.
\<close>

definition blank_heap :: "ref \<Rightarrow> unit js_object" where
  "blank_heap = (\<lambda>r. \<lparr>timestamp = None, props = ()\<rparr>)"

definition labelled_heap :: "ref \<Rightarrow> string js_object" where
  "labelled_heap = (\<lambda>r. \<lparr>timestamp = None, props = ''raw''\<rparr>)"

definition relabel :: "string js_object \<Rightarrow> string js_object" where
  "relabel ob = ob\<lparr>props := ''edited''\<rparr>"

definition stale_viz_cache :: "(unit, unit, string) CacheManager" where
  "stale_viz_cache = setVisualization 0 ''old'' ''first'' (CacheManager_new blank_heap)"

subsection \<open>LazyLoader\<close>

text \<open>
  \<^verbatim>\<open>loadedModules\<close> and \<^verbatim>\<open>loadingPromises\<close> are the two fields of the class. The
  page is part of the state: \<open>scripts\<close> lists the script elements that
  \<^verbatim>\<open>_loadModuleFile\<close> has appended to the document, in order, each by the module name
  it loads; the promise that the \<open>p\<close>-th call returned is identified with \<open>p\<close>.
  \<open>settled\<close> holds the promises whose script has fired \<^verbatim>\<open>onload\<close> or \<^verbatim>\<open>onerror\<close>.
\<close>

record LazyLoader =
  loadedModules :: "string set"
  loadingPromises :: "string \<rightharpoonup> nat"
  scripts :: "string list"
  settled :: "nat set"

definition LazyLoader_new :: LazyLoader where
  "LazyLoader_new =
     \<lparr>loadedModules = {}, loadingPromises = Map.empty, scripts = [], settled = {}\<rparr>"

text \<open>
  What a caller of \<^verbatim>\<open>loadModule\<close> holds. Every call of the async function returns a
  promise of its own:
  \<^item> \<open>Resolved\<close>, for a module that is loaded: the promise of \<^verbatim>\<open>Promise.resolve()\<close>;
  \<^item> \<open>Awaiting p\<close>, for the call that created the script promise \<open>p\<close>: the function
    never returns \<open>p\<close>; its promise settles when the continuation after
    \<^verbatim>\<open>await loadPromise\<close> has run, fulfilled with \<^verbatim>\<open>undefined\<close> or rejected with the
    error that the \<^verbatim>\<open>catch\<close> clause throws again;
  \<^item> \<open>Following p\<close>, for a call that finds \<open>p\<close> in \<^verbatim>\<open>loadingPromises\<close> and returns it:
    its promise takes the outcome of \<open>p\<close>, which \<^verbatim>\<open>script.onload = resolve\<close> fulfils
    with the load event and \<^verbatim>\<open>script.onerror = reject\<close> rejects.
  \<open>settled_result\<close> is the outcome of the caller's promise once the script promise has
  settled, \<open>None\<close> standing for a script that loaded and \<open>Some e\<close> for a rejection
  with \<open>e\<close>. \<open>decided_by\<close> is the script promise on which the outcome depends.
\<close>

datatype load_reply = Resolved | Awaiting nat | Following nat

datatype js_value = Undefined | LoadEvent nat

definition settled_result :: "load_reply \<Rightarrow> js_error option \<Rightarrow> js_error + js_value" where
  "settled_result reply rejection =
     (case reply of
        Resolved \<Rightarrow> Inr Undefined
      | Awaiting p \<Rightarrow> (case rejection of None \<Rightarrow> Inr Undefined | Some error \<Rightarrow> Inl error)
      | Following p \<Rightarrow> (case rejection of None \<Rightarrow> Inr (LoadEvent p) | Some error \<Rightarrow> Inl error))"

definition decided_by :: "load_reply \<Rightarrow> nat option" where
  "decided_by reply =
     (case reply of Resolved \<Rightarrow> None | Awaiting p \<Rightarrow> Some p | Following p \<Rightarrow> Some p)"

definition loadModuleFile :: "string \<Rightarrow> LazyLoader \<Rightarrow> nat \<times> LazyLoader" where
  "loadModuleFile moduleName s = (length (scripts s), s\<lparr>scripts := scripts s @ [moduleName]\<rparr>)"

text \<open>
  \<^verbatim>\<open>loadModule\<close> runs without interruption up to its \<^verbatim>\<open>await loadPromise\<close>:
  \<open>loadModule_begin\<close> is that part. \<open>loadModule_resume\<close> is the rest, which runs when the
  awaited promise has settled, with \<open>None\<close> for a resolved promise and \<open>Some e\<close> for one
  rejected with \<open>e\<close>; its result is the outcome of the promise of the call that
  created the script.
\<close>

definition loadModule_begin :: "string \<Rightarrow> LazyLoader \<Rightarrow> load_reply \<times> LazyLoader" where
  "loadModule_begin moduleName s =
     (if moduleName \<in> loadedModules s then (Resolved, s)
      else case loadingPromises s moduleName of
             Some p \<Rightarrow> (Following p, s)
           | None \<Rightarrow>
               (let (loadPromise, s1) = loadModuleFile moduleName s
                in (Awaiting loadPromise,
                    s1\<lparr>loadingPromises := (loadingPromises s1)(moduleName \<mapsto> loadPromise)\<rparr>)))"

definition loadModule_resume ::
  "string \<Rightarrow> js_error option \<Rightarrow> LazyLoader \<Rightarrow> (js_error + js_value) \<times> LazyLoader" where
  "loadModule_resume moduleName rejection s =
     (case rejection of
        None \<Rightarrow>
          (Inr Undefined, s\<lparr>loadedModules := insert moduleName (loadedModules s),
                     loadingPromises := (loadingPromises s)(moduleName := None)\<rparr>)
      | Some error \<Rightarrow>
          (Inl error, s\<lparr>loadingPromises := (loadingPromises s)(moduleName := None)\<rparr>))"

text \<open>
  The events of the single-threaded page: a call of \<^verbatim>\<open>loadModule\<close>, and a script that
  finishes loading or fails, after which the continuation of the call that created the
  script runs. A script settles once.
\<close>

datatype loader_event = Load string | Settle nat "js_error option"

fun loader_step :: "loader_event \<Rightarrow> LazyLoader \<Rightarrow> LazyLoader" where
  "loader_step (Load moduleName) s = snd (loadModule_begin moduleName s)"
| "loader_step (Settle p rejection) s =
     (if p < length (scripts s) \<and> p \<notin> settled s
      then snd (loadModule_resume (scripts s ! p) rejection (s\<lparr>settled := insert p (settled s)\<rparr>))
      else s)"

fun loader_run :: "loader_event list \<Rightarrow> LazyLoader \<Rightarrow> LazyLoader" where
  "loader_run [] s = s"
| "loader_run (e # es) s = loader_run es (loader_step e s)"

text \<open>The loads of a module that are under way, and \<open>n\<close> calls in a row.\<close>

definition outstanding :: "LazyLoader \<Rightarrow> string \<Rightarrow> nat list" where
  "outstanding s moduleName =
     filter (\<lambda>p. scripts s ! p = moduleName \<and> p \<notin> settled s) [0..<length (scripts s)]"

fun loadModule_calls :: "string \<Rightarrow> nat \<Rightarrow> LazyLoader \<Rightarrow> load_reply list \<times> LazyLoader" where
  "loadModule_calls moduleName 0 s = ([], s)"
| "loadModule_calls moduleName (Suc n) s =
     (let (reply, s1) = loadModule_begin moduleName s;
          (replies, s2) = loadModule_calls moduleName n s1
      in (reply # replies, s2))"

text \<open>
  The invariant of the loader: the markers in \<^verbatim>\<open>loadingPromises\<close> are exactly the
  scripts that have not settled.
\<close>

definition in_flight_inv :: "LazyLoader \<Rightarrow> bool" where
  "in_flight_inv s =
     ((\<forall>p moduleName. loadingPromises s moduleName = Some p \<longrightarrow>
         p < length (scripts s) \<and> scripts s ! p = moduleName \<and> p \<notin> settled s)
      \<and> (\<forall>p. p < length (scripts s) \<and> p \<notin> settled s \<longrightarrow>
         loadingPromises s (scripts s ! p) = Some p)
      \<and> (\<forall>p. p \<in> settled s \<longrightarrow> p < length (scripts s)))"

text \<open>Two reachable states, for concrete runs.\<close>

definition loaded_x :: LazyLoader where
  "loaded_x = loader_run [Load ''x'', Settle 0 None] LazyLoader_new"

definition loading_x :: LazyLoader where
  "loading_x = loader_run [Load ''x''] LazyLoader_new"


subsection \<open>BatchProcessor\<close>

text \<open>
  The constructor sets \<^verbatim>\<open>isProcessing\<close>, an empty \<^verbatim>\<open>queue\<close> that no method reads,
  and \<^verbatim>\<open>chunkSize = 1000\<close>. Chunk sizes are counts, hence natural numbers.
\<close>

record BatchProcessor =
  isProcessing :: bool
  chunkSize :: nat

definition BatchProcessor_new :: BatchProcessor where
  "BatchProcessor_new = \<lparr>isProcessing = False, chunkSize = 1000\<rparr>"

text \<open>
  The \<^verbatim>\<open>options\<close> argument of \<^verbatim>\<open>processBatch\<close>: \<open>chunkSize_opt\<close> is
  \<^verbatim>\<open>options.chunkSize\<close> (\<open>None\<close> when the property is absent), \<open>onProgress\<close> tells
  whether a progress callback was given. \<open>or_default v d\<close> is \<^verbatim>\<open>v || d\<close>: an absent
  value and 0 are falsy.
\<close>

record batch_options =
  chunkSize_opt :: "nat option"
  onProgress :: bool

definition or_default :: "nat option \<Rightarrow> nat \<Rightarrow> nat" where
  "or_default v d = (case v of None \<Rightarrow> d | Some n \<Rightarrow> if n = 0 then d else n)"

text \<open>
  \<^verbatim>\<open>array.slice(i, j)\<close> for \<open>0 \<le> i\<close>: the elements from index \<open>i\<close> up to, not
  including, index \<open>j\<close>, cut at the end of the array.
\<close>

definition slice :: "'a list \<Rightarrow> nat \<Rightarrow> nat \<Rightarrow> 'a list" where
  "slice array i j = take (j - i) (drop i array)"

text \<open>
  The loop of \<^verbatim>\<open>_createChunks\<close> steps \<open>i\<close> by \<open>size'\<close> and never ends when the
  step is 0 and the array is not empty; \<open>None\<close> is the run that does not return.
\<close>

partial_function (option) createChunks_loop ::
  "'a list \<Rightarrow> nat \<Rightarrow> nat \<Rightarrow> 'a list list \<Rightarrow> 'a list list option" where
  "createChunks_loop array size' i chunks =
     (if i < length array
      then createChunks_loop array size' (i + size') (chunks @ [slice array i (i + size')])
      else Some chunks)"

definition createChunks :: "'a list \<Rightarrow> nat \<Rightarrow> 'a list list option" where
  "createChunks array size' = createChunks_loop array size' 0 []"

text \<open>
  What a run of \<^verbatim>\<open>processBatch\<close> does besides computing its result, in order: the
  \<^verbatim>\<open>await this._yieldToMainThread()\<close> (with the chunk index \<open>i\<close> at which it happens),
  the calls of the processor (with the chunk passed), and the calls
  \<^verbatim>\<open>onProgress((i + 1) / chunks.length, results.length)\<close> (numerator, denominator, count).
  The outcome is the returned array, or the exception of the processor, which
  \<^verbatim>\<open>processBatch\<close> does not catch.
\<close>

datatype 'a batch_event =
    YieldToMainThread nat
  | ProcessorCall "'a list"
  | Progress nat nat nat

record ('a, 'b) batch_run =
  outcome :: "js_error + 'b list"
  events :: "'a batch_event list"

function processBatch_loop ::
  "('a list \<Rightarrow> js_error + 'b list) \<Rightarrow> bool \<Rightarrow> 'a list list \<Rightarrow> nat \<Rightarrow> 'b list
     \<Rightarrow> 'a batch_event list \<Rightarrow> ('a, 'b) batch_run" where
  "processBatch_loop processor progress chunks i results ev =
     (if i < length chunks then
        (let chunk = chunks ! i;
             ev1 = (if 0 < i \<and> i mod 10 = 0 then ev @ [YieldToMainThread i] else ev)
                     @ [ProcessorCall chunk]
         in case processor chunk of
              Inl e \<Rightarrow> \<lparr>outcome = Inl e, events = ev1\<rparr>
            | Inr chunkResults \<Rightarrow>
                processBatch_loop processor progress chunks (i + 1) (results @ chunkResults)
                  (if progress
                   then ev1 @ [Progress (i + 1) (length chunks) (length (results @ chunkResults))]
                   else ev1))
      else \<lparr>outcome = Inr results, events = ev\<rparr>)"
  by pat_completeness auto
termination
  by (relation "measure (\<lambda>(processor, progress, chunks, i, results, ev). length chunks - i)") auto

definition processBatch ::
  "BatchProcessor \<Rightarrow> 'a list \<Rightarrow> ('a list \<Rightarrow> js_error + 'b list) \<Rightarrow> batch_options
     \<Rightarrow> ('a, 'b) batch_run option" where
  "processBatch bp items processor options =
     (let size' = or_default (chunkSize_opt options) (chunkSize bp) in
      case createChunks items size' of
        None \<Rightarrow> None
      | Some chunks \<Rightarrow> Some (processBatch_loop processor (onProgress options) chunks 0 [] []))"




text \<open>
  A processor that transforms a chunk item by item and never fails, and the consecutive
  chunks of a list as a total function, for stating what \<^verbatim>\<open>_createChunks\<close> returns.
\<close>

definition per_item :: "('a \<Rightarrow> 'b) \<Rightarrow> 'a list \<Rightarrow> js_error + 'b list" where
  "per_item f chunk = Inr (map f chunk)"

function chunks_of :: "nat \<Rightarrow> 'a list \<Rightarrow> 'a list list" where
  "chunks_of n xs = (if n = 0 \<or> xs = [] then [] else take n xs # chunks_of n (drop n xs))"
  by pat_completeness auto
termination
  by (relation "measure (\<lambda>(n, xs). length xs)") auto

subsection \<open>OptimizedMapRenderer: sampling\<close>

text \<open>
  \<^verbatim>\<open>sampled[j] = v\<close>: inside the array the element is replaced; beyond its end
  JavaScript extends the array, leaving holes. \<open>randomIndex i\<close> is the value of
  \<^verbatim>\<open>Math.floor(Math.random() * (i + 1))\<close> drawn in iteration \<open>i\<close>.
\<close>

definition array_set :: "'a option list \<Rightarrow> nat \<Rightarrow> 'a option \<Rightarrow> 'a option list" where
  "array_set xs j v =
     (if j < length xs then xs[j := v] else xs @ replicate (j - length xs) None @ [v])"

function samplePoints_loop ::
  "(nat \<Rightarrow> nat) \<Rightarrow> 'a option list \<Rightarrow> nat \<Rightarrow> nat \<Rightarrow> 'a option list \<Rightarrow> 'a option list" where
  "samplePoints_loop randomIndex points maxPoints i sampled =
     (if i < length points \<and> length sampled < maxPoints then
        (if i < maxPoints
         then samplePoints_loop randomIndex points maxPoints (i + 1) (sampled @ [points ! i])
         else (let j = randomIndex i in
               if j < maxPoints
               then samplePoints_loop randomIndex points maxPoints (i + 1)
                      (array_set sampled j (points ! i))
               else samplePoints_loop randomIndex points maxPoints (i + 1) sampled))
      else sampled)"
  by pat_completeness auto
termination
  by (relation "measure (\<lambda>(randomIndex, points, maxPoints, i, sampled). length points - i)") auto

definition samplePoints :: "(nat \<Rightarrow> nat) \<Rightarrow> 'a option list \<Rightarrow> nat \<Rightarrow> 'a option list" where
  "samplePoints randomIndex points maxPoints =
     (if length points \<le> maxPoints then points
      else samplePoints_loop randomIndex points maxPoints 0 [])"


subsection \<open>OptimizedMapRenderer: rendering\<close>

text \<open>
  A point has a latitude and a longitude; an element of a point array may be null, which
  is \<open>None\<close>. A feature carries \<^verbatim>\<open>geometry.coordinates\<close>, the pair
  \<^verbatim>\<open>[point.lon, point.lat]\<close>, and its properties: \<^verbatim>\<open>{id, activity}\<close> for a marker,
  \<^verbatim>\<open>{intensity}\<close> for a heatmap point.
\<close>

record point =
  lat :: real
  lon :: real

datatype properties = MarkerProperties nat nat | HeatmapProperties nat

record feature =
  coordinates :: "real \<times> real"
  properties :: properties

text \<open>
  \<^verbatim>\<open>array.map(callback)\<close> with a callback that receives the element and its index and
  may throw: the first exception ends the map.
\<close>

fun array_map :: "(nat \<Rightarrow> 'a \<Rightarrow> js_error + 'b) \<Rightarrow> nat \<Rightarrow> 'a list \<Rightarrow> js_error + 'b list" where
  "array_map f index [] = Inr []"
| "array_map f index (x # xs) =
     (case f index x of
        Inl e \<Rightarrow> Inl e
      | Inr y \<Rightarrow> (case array_map f (index + 1) xs of Inl e \<Rightarrow> Inl e | Inr ys \<Rightarrow> Inr (y # ys)))"

text \<open>
  The callbacks of \<^verbatim>\<open>renderMarkers\<close> and of \<^verbatim>\<open>_prepareHeatmapData\<close>. Reading
  \<^verbatim>\<open>point.lon\<close> of a null element throws a TypeError. \<open>randomActivity index\<close> is the
  value of \<^verbatim>\<open>Math.floor(Math.random() * 100) + 1\<close> drawn for the element.
\<close>

definition marker_feature :: "(nat \<Rightarrow> nat) \<Rightarrow> nat \<Rightarrow> point option \<Rightarrow> js_error + feature" where
  "marker_feature randomActivity index pt =
     (case pt of
        None \<Rightarrow> Inl TypeError
      | Some p \<Rightarrow> Inr \<lparr>coordinates = (lon p, lat p),
                        properties = MarkerProperties index (randomActivity index)\<rparr>)"



text \<open>
  The rendering backend (the Mapbox map) is not part of the repository: its operations
  are parameters, over a backend state \<open>'m\<close>; each may throw. So are
  \<^verbatim>\<open>JSON.stringify\<close> on the options and the two random sources.
\<close>

record source_spec =
  features :: "feature list"
  cluster :: bool

record layer_spec =
  layer_id :: string
  layer_type :: string
  layer_source :: string

record render_options =
  maxPoints_opt :: "nat option"

record 'm host =
  getLayer :: "'m \<Rightarrow> string \<Rightarrow> bool"
  removeLayer :: "'m \<Rightarrow> string \<Rightarrow> js_error + 'm"
  getSource :: "'m \<Rightarrow> string \<Rightarrow> bool"
  removeSource :: "'m \<Rightarrow> string \<Rightarrow> js_error + 'm"
  addSource :: "'m \<Rightarrow> string \<Rightarrow> source_spec \<Rightarrow> js_error + 'm"
  addLayer :: "'m \<Rightarrow> layer_spec \<Rightarrow> js_error + 'm"
  JSON_stringify :: "render_options \<Rightarrow> string"
  random_index :: "nat \<Rightarrow> nat"
  random_activity :: "nat \<Rightarrow> nat"

text \<open>
  The renderer: \<^verbatim>\<open>this.map\<close> (null before \<^verbatim>\<open>initialize\<close>), \<^verbatim>\<open>this.layers\<close>, the
  cache manager, the batch processor, and the calls of \<^verbatim>\<open>logPerformanceIssue\<close> made
  on its performance monitor. A cached descriptor is \<^verbatim>\<open>{sourceId, layerId, type}\<close>, or
  \<^verbatim>\<open>{sourceId, layers, type}\<close> for clusters.
\<close>

record visualization =
  sourceId :: string
  layerId :: string
  viz_type :: string

record cluster_visualization =
  cluster_sourceId :: string
  cluster_layers :: "string list"
  cluster_type :: string

datatype descriptor = Descriptor visualization | ClusterDescriptor cluster_visualization

record ('a, 'i, 'm) renderer =
  map_r :: "'m option"
  layers :: "string \<rightharpoonup> visualization"
  cacheManager :: "('a, 'i, descriptor) CacheManager"
  batchProcessor :: BatchProcessor
  issues :: "(string \<times> js_error) list"

definition logPerformanceIssue ::
  "string \<Rightarrow> js_error \<Rightarrow> ('a, 'i, 'm) renderer \<Rightarrow> ('a, 'i, 'm) renderer" where
  "logPerformanceIssue issue details r = r\<lparr>issues := issues r @ [(issue, details)]\<rparr>"

text \<open>
  \<^verbatim>\<open>_removeLayer\<close> and \<^verbatim>\<open>_removeSource\<close> catch the exception of the backend and only
  warn; the backend state is then the one before the call.
\<close>

definition removeLayer_r ::
  "'m host \<Rightarrow> string \<Rightarrow> ('a, 'i, 'm) renderer \<Rightarrow> ('a, 'i, 'm) renderer" where
  "removeLayer_r h lid r =
     (case map_r r of
        None \<Rightarrow> r
      | Some m \<Rightarrow>
          if getLayer h m lid
          then (case removeLayer h m lid of Inl e \<Rightarrow> r | Inr m' \<Rightarrow> r\<lparr>map_r := Some m'\<rparr>)
          else r)"

definition removeSource_r ::
  "'m host \<Rightarrow> string \<Rightarrow> ('a, 'i, 'm) renderer \<Rightarrow> ('a, 'i, 'm) renderer" where
  "removeSource_r h sid r =
     (case map_r r of
        None \<Rightarrow> r
      | Some m \<Rightarrow>
          if getSource h m sid
          then (case removeSource h m sid of Inl e \<Rightarrow> r | Inr m' \<Rightarrow> r\<lparr>map_r := Some m'\<rparr>)
          else r)"

text \<open>
  The \<^verbatim>\<open>try\<close> block of \<^verbatim>\<open>renderMarkers\<close>: the exception that leaves it, if any, and the
  state at that moment. \<open>now'\<close> is the clock reading of \<^verbatim>\<open>setVisualization\<close>. Calling
  \<^verbatim>\<open>this.map.addSource\<close> on a null map throws a TypeError.
\<close>

definition renderMarkers_try ::
  "'m host \<Rightarrow> int \<Rightarrow> point option list \<Rightarrow> render_options \<Rightarrow> string
     \<Rightarrow> ('a, 'i, 'm) renderer \<Rightarrow> js_error option \<times> ('a, 'i, 'm) renderer" where
  "renderMarkers_try h now' points options cacheKey r =
     (let maxPoints' = or_default (maxPoints_opt options) 5000;
          displayPoints = (if length points > maxPoints'
                           then samplePoints (random_index h) points maxPoints' else points);
          r1 = removeLayer_r h ''markers-layer'' r;
          r2 = removeSource_r h ''markers-source'' r1
      in case array_map (marker_feature (random_activity h)) 0 displayPoints of
           Inl e \<Rightarrow> (Some e, r2)
         | Inr fs \<Rightarrow>
             (case map_r r2 of
                None \<Rightarrow> (Some TypeError, r2)
              | Some m \<Rightarrow>
                  (case addSource h m ''markers-source'' \<lparr>features = fs, cluster = False\<rparr> of
                     Inl e \<Rightarrow> (Some e, r2)
                   | Inr m1 \<Rightarrow>
                       (case addLayer h m1 \<lparr>layer_id = ''markers-layer'', layer_type = ''circle'',
                                              layer_source = ''markers-source''\<rparr> of
                          Inl e \<Rightarrow> (Some e, r2\<lparr>map_r := Some m1\<rparr>)
                        | Inr m2 \<Rightarrow>
                            (None,
                             r2\<lparr>map_r := Some m2,
                                cacheManager :=
                                  setVisualization now' cacheKey
                                    (Descriptor
                                       \<lparr>sourceId = ''markers-source'',
                                        layerId = ''markers-layer'', viz_type = ''markers''\<rparr>)
                                    (cacheManager r2)\<rparr>)))))"

text \<open>
  \<^verbatim>\<open>renderMarkers(points, options)\<close>. On a cache hit it returns what
  \<^verbatim>\<open>_applyCachedVisualization\<close> returns, which only logs. The \<^verbatim>\<open>catch\<close> clause logs the
  exception and passes it to \<^verbatim>\<open>logPerformanceIssue\<close>; the function then ends normally.
  The result is the outcome of the returned promise, \<open>Inl\<close> for a rejection.
\<close>

definition renderMarkers ::
  "'m host \<Rightarrow> int \<Rightarrow> int \<Rightarrow> point option list \<Rightarrow> render_options
     \<Rightarrow> ('a, 'i, 'm) renderer \<Rightarrow> (js_error + unit) \<times> ('a, 'i, 'm) renderer" where
  "renderMarkers h now now' points options r =
     (let cacheKey = ''markers_'' @ JSON_stringify h options;
          (cached, cm) = getVisualization now cacheKey (cacheManager r);
          r0 = r\<lparr>cacheManager := cm\<rparr>
      in case cached of
           Some v \<Rightarrow> (Inr (), r0)
         | None \<Rightarrow>
             (case renderMarkers_try h now' points options cacheKey r0 of
                (None, r') \<Rightarrow> (Inr (), r')
              | (Some error, r') \<Rightarrow>
                  (Inr (), logPerformanceIssue ''Marker rendering failed'' error r')))"

text \<open>
  \<^verbatim>\<open>renderClusters\<close> builds its features with the same callback, for a source that
  clusters, and adds three layers; its cap defaults to 10000.
\<close>

definition renderClusters_try ::
  "'m host \<Rightarrow> int \<Rightarrow> point option list \<Rightarrow> render_options \<Rightarrow> string
     \<Rightarrow> ('a, 'i, 'm) renderer \<Rightarrow> js_error option \<times> ('a, 'i, 'm) renderer" where
  "renderClusters_try h now' points options cacheKey r =
     (let maxPoints' = or_default (maxPoints_opt options) 10000;
          displayPoints = (if length points > maxPoints'
                           then samplePoints (random_index h) points maxPoints' else points);
          r1 = removeLayer_r h ''clusters-layer'' r;
          r2 = removeLayer_r h ''cluster-count-layer'' r1;
          r3 = removeSource_r h ''clusters-source'' r2
      in case array_map (marker_feature (random_activity h)) 0 displayPoints of
           Inl e \<Rightarrow> (Some e, r3)
         | Inr fs \<Rightarrow>
             (case map_r r3 of
                None \<Rightarrow> (Some TypeError, r3)
              | Some m \<Rightarrow>
                  (case addSource h m ''clusters-source'' \<lparr>features = fs, cluster = True\<rparr> of
                     Inl e \<Rightarrow> (Some e, r3)
                   | Inr m1 \<Rightarrow>
                       (case addLayer h m1 \<lparr>layer_id = ''clusters-layer'', layer_type = ''circle'',
                                              layer_source = ''clusters-source''\<rparr> of
                          Inl e \<Rightarrow> (Some e, r3\<lparr>map_r := Some m1\<rparr>)
                        | Inr m2 \<Rightarrow>
                            (case addLayer h m2 \<lparr>layer_id = ''cluster-count-layer'',
                                    layer_type = ''symbol'', layer_source = ''clusters-source''\<rparr> of
                               Inl e \<Rightarrow> (Some e, r3\<lparr>map_r := Some m2\<rparr>)
                             | Inr m3 \<Rightarrow>
                                 (let r4 = removeLayer_r h ''unclustered-points''
                                             (r3\<lparr>map_r := Some m3\<rparr>)
                                  in case map_r r4 of
                                       None \<Rightarrow> (Some TypeError, r4)
                                     | Some m4 \<Rightarrow>
                                         (case addLayer h m4 \<lparr>layer_id = ''unclustered-points'',
                                                 layer_type = ''circle'',
                                                 layer_source = ''clusters-source''\<rparr> of
                                            Inl e \<Rightarrow> (Some e, r4)
                                          | Inr m5 \<Rightarrow>
                                              (None,
                                               r4\<lparr>map_r := Some m5,
                                                  cacheManager :=
                                                    setVisualization now' cacheKey
                                                      (ClusterDescriptor
                                                         \<lparr>cluster_sourceId = ''clusters-source'',
                                                          cluster_layers =
                                                            [''clusters-layer'', ''cluster-count-layer'',
                                                             ''unclustered-points''],
                                                          cluster_type = ''clusters''\<rparr>)
                                                      (cacheManager r4)\<rparr>))))))))"

definition renderClusters ::
  "'m host \<Rightarrow> int \<Rightarrow> int \<Rightarrow> point option list \<Rightarrow> render_options
     \<Rightarrow> ('a, 'i, 'm) renderer \<Rightarrow> (js_error + unit) \<times> ('a, 'i, 'm) renderer" where
  "renderClusters h now now' points options r =
     (let cacheKey = ''clusters_'' @ JSON_stringify h options;
          (cached, cm) = getVisualization now cacheKey (cacheManager r);
          r0 = r\<lparr>cacheManager := cm\<rparr>
      in case cached of
           Some v \<Rightarrow> (Inr (), r0)
         | None \<Rightarrow>
             (case renderClusters_try h now' points options cacheKey r0 of
                (None, r') \<Rightarrow> (Inr (), r')
              | (Some error, r') \<Rightarrow>
                  (Inr (), logPerformanceIssue ''Cluster rendering failed'' error r')))"



text \<open>
  A backend that records the sources and layers it is given and never throws, and a
  renderer that has been initialised on it and has rendered nothing yet.
\<close>

record recorded_map =
  sources :: "(string \<times> source_spec) list"
  layer_list :: "layer_spec list"

definition recording_host :: "recorded_map host" where
  "recording_host =
     \<lparr>getLayer = (\<lambda>m lid. lid \<in> set (map layer_id (layer_list m))),
      removeLayer = (\<lambda>m lid. Inr (m\<lparr>layer_list := filter (\<lambda>l. layer_id l \<noteq> lid) (layer_list m)\<rparr>)),
      getSource = (\<lambda>m sid. sid \<in> set (map fst (sources m))),
      removeSource = (\<lambda>m sid. Inr (m\<lparr>sources := filter (\<lambda>s. fst s \<noteq> sid) (sources m)\<rparr>)),
      addSource = (\<lambda>m sid spec. Inr (m\<lparr>sources := sources m @ [(sid, spec)]\<rparr>)),
      addLayer = (\<lambda>m l. Inr (m\<lparr>layer_list := layer_list m @ [l]\<rparr>)),
      JSON_stringify = (\<lambda>options. ''{}''),
      random_index = (\<lambda>i. 0),
      random_activity = (\<lambda>i. 1)\<rparr>"

definition ready_renderer :: "(unit, unit, recorded_map) renderer" where
  "ready_renderer =
     \<lparr>map_r = Some \<lparr>sources = [], layer_list = []\<rparr>,
      layers = Map.empty,
      cacheManager = CacheManager_new blank_heap,
      batchProcessor = BatchProcessor_new,
      issues = []\<rparr>"

text \<open>The coordinates of the features that the backend has received, by source.\<close>

definition rendered_coordinates ::
  "('a, 'i, recorded_map) renderer \<Rightarrow> (string \<times> (real \<times> real) list) list" where
  "rendered_coordinates r =
     (case map_r r of
        None \<Rightarrow> []
      | Some m \<Rightarrow> map (\<lambda>(sid, spec). (sid, map coordinates (features spec))) (sources m))"



section \<open>Properties of the CacheManager\<close>

lemma cleanup_keeps_heap: "heap (cleanup now c) = heap c"
  by (simp add: cleanup_def Let_def)

lemma cleanup_keeps_duration: "CACHE_DURATION (cleanup now c) = CACHE_DURATION c"
  by (simp add: cleanup_def Let_def)

lemma setData_heap:
  "heap (setData now now' key r c) = (heap c)(r := (heap c r)\<lparr>timestamp := Some now\<rparr>)"
  by (simp add: setData_def cleanup_keeps_heap)

lemma setData_duration: "CACHE_DURATION (setData now now' key r c) = CACHE_DURATION c"
  by (simp add: setData_def cleanup_keeps_duration)

lemma setData_entry:
  "dataCache (setData now now' key r c) key =
     (if now < now' - CACHE_DURATION c then None else Some r)"
  by (simp add: setData_def cleanup_def Let_def sweep_def before_def)

lemma getData_keeps_heap: "heap (snd (getData now key c)) = heap c"
  by (simp add: getData_def split: option.splits)

lemma getData_keeps_duration: "CACHE_DURATION (snd (getData now key c)) = CACHE_DURATION c"
  by (simp add: getData_def split: option.splits)

lemma getData_expired:
  assumes "dataCache c key = Some r" and "timestamp (heap c r) = Some ts"
    and "CACHE_DURATION c \<le> now - ts"
  shows "getData now key c = (None, c\<lparr>dataCache := (dataCache c)(key := None)\<rparr>)"
  using assms by (simp add: getData_def fresh_def)

lemma getData_absent: "dataCache c key = None \<Longrightarrow> getData now key c = (None, c)"
  by (simp add: getData_def)

lemma getData_fresh:
  assumes "dataCache c key = Some r" and "timestamp (heap c r) = Some ts"
    and "now - ts < CACHE_DURATION c"
  shows "getData now key c = (Some r, c)"
  using assms by (simp add: getData_def fresh_def)

lemma setData_sweeps_all: "\<not> holds_older_than now' (setData now now' key r c) k"
  by (simp add: holds_older_than_def setData_def cleanup_def Let_def sweep_def before_def
      split: option.splits)

lemma data_ttl:
  "(t' \<le> now \<and> now - t < CACHE_DURATION c \<longrightarrow>
      getData now k (setData t t' k v c) = (Some v, setData t t' k v c))
   \<and> (CACHE_DURATION c \<le> late - t \<longrightarrow>
      fst (getData late k (setData t t' k v c)) = None
      \<and> dataCache (snd (getData late k (setData t t' k v c))) k = None
      \<and> fst (getData later k (snd (getData late k (setData t t' k v c)))) = None)
   \<and> heap (snd (getData now k c)) = heap c"
proof (intro conjI impI)
  let ?c1 = "setData t t' k v c"
  have ts: "timestamp (heap ?c1 v) = Some t"
    by (simp add: setData_heap)
  have dur: "CACHE_DURATION ?c1 = CACHE_DURATION c"
    by (rule setData_duration)
  {
    assume a: "t' \<le> now \<and> now - t < CACHE_DURATION c"
    then have "dataCache ?c1 k = Some v"
      by (simp add: setData_entry)
    with a ts dur show "getData now k ?c1 = (Some v, ?c1)"
      by (simp add: getData_fresh)
  }
  {
    assume b: "CACHE_DURATION c \<le> late - t"
    have gone: "fst (getData late k ?c1) = None \<and> dataCache (snd (getData late k ?c1)) k = None"
    proof (cases "dataCache ?c1 k")
      case None
      then show ?thesis by (simp add: getData_absent)
    next
      case (Some r)
      then have "r = v" by (simp add: setData_entry split: if_splits)
      with Some b ts dur show ?thesis
        by (simp add: getData_expired [where ts = t])
    qed
    from gone show "fst (getData late k ?c1) = None" by simp
    from gone show "dataCache (snd (getData late k ?c1)) k = None" by simp
    from gone show "fst (getData later k (snd (getData late k ?c1))) = None"
      by (simp add: getData_absent)
  }
  show "heap (snd (getData now k c)) = heap c"
    by (rule getData_keeps_heap)
qed

lemma visualization_ttl:
  "(now - t < CACHE_DURATION c \<longrightarrow>
      getVisualization now k (setVisualization t k w c) = (Some w, setVisualization t k w c))
   \<and> (CACHE_DURATION c \<le> late - t \<longrightarrow>
      fst (getVisualization late k (setVisualization t k w c)) = None
      \<and> visualizationCache (snd (getVisualization late k (setVisualization t k w c))) k = None)"
  by (simp add: getVisualization_def setVisualization_def)

lemma mapInstance_ttl:
  "(now - t < CACHE_DURATION c \<longrightarrow>
      getMapInstance now k (setMapInstance t k m c) = (Some m, setMapInstance t k m c))
   \<and> (CACHE_DURATION c \<le> late - t \<longrightarrow>
      fst (getMapInstance late k (setMapInstance t k m c)) = None
      \<and> mapCache (snd (getMapInstance late k (setMapInstance t k m c))) k = None)"
  by (simp add: getMapInstance_def setMapInstance_def)

text \<open>
  Claim C1. After \<^verbatim>\<open>setData(k, v)\<close>, a \<^verbatim>\<open>getData(k)\<close> made while less than
  \<open>CACHE_DURATION\<close> has passed since the insertion returns \<open>v\<close> and leaves the cache as it
  was; a \<^verbatim>\<open>getData(k)\<close> made when \<open>CACHE_DURATION\<close> or more has passed returns null and
  the entry is gone afterwards, so that a further \<^verbatim>\<open>getData(k)\<close> returns null as well;
  and no \<^verbatim>\<open>getData\<close> changes any object of the store, in particular no timestamp.
  The visualization cache and the map-instance cache behave in the same way: a hit
  returns the value and leaves the entry, with its timestamp, as it was; a read at or
  after the duration returns null and deletes the entry.
\<close>

theorem C1_ttl_expiration:
  "((t' \<le> now \<and> now - t < CACHE_DURATION c \<longrightarrow>
      getData now k (setData t t' k v c) = (Some v, setData t t' k v c))
    \<and> (CACHE_DURATION c \<le> late - t \<longrightarrow>
      fst (getData late k (setData t t' k v c)) = None
      \<and> dataCache (snd (getData late k (setData t t' k v c))) k = None
      \<and> fst (getData later k (snd (getData late k (setData t t' k v c)))) = None)
    \<and> heap (snd (getData now k c)) = heap c)
   \<and> ((now - t < CACHE_DURATION c \<longrightarrow>
      getVisualization now k (setVisualization t k w c) = (Some w, setVisualization t k w c))
    \<and> (CACHE_DURATION c \<le> late - t \<longrightarrow>
      fst (getVisualization late k (setVisualization t k w c)) = None
      \<and> visualizationCache (snd (getVisualization late k (setVisualization t k w c))) k = None))
   \<and> ((now - t < CACHE_DURATION c \<longrightarrow>
      getMapInstance now k (setMapInstance t k m c) = (Some m, setMapInstance t k m c))
    \<and> (CACHE_DURATION c \<le> late - t \<longrightarrow>
      fst (getMapInstance late k (setMapInstance t k m c)) = None
      \<and> mapCache (snd (getMapInstance late k (setMapInstance t k m c))) k = None))"
  by (rule conjI [OF data_ttl conjI [OF visualization_ttl mapInstance_ttl]])

theorem C1_ttl_expiration_witness:
  "getData 2000 ''k'' (setData 1000 1001 ''k'' 7 (CacheManager_new blank_heap :: (unit, unit, string) CacheManager))
     = (Some 7, setData 1000 1001 ''k'' 7 (CacheManager_new blank_heap))
   \<and> fst (getData 301000 ''k'' (setData 1000 1001 ''k'' 7 (CacheManager_new blank_heap :: (unit, unit, string) CacheManager))) = None
   \<and> fst (getData 301001 ''k'' (snd (getData 301000 ''k'' (setData 1000 1001 ''k'' 7 (CacheManager_new blank_heap :: (unit, unit, string) CacheManager))))) = None
   \<and> fst (getVisualization 2000 ''k'' (setVisualization 1000 ''k'' ''viz'' (CacheManager_new blank_heap :: (unit, unit, string) CacheManager)))
     = Some ''viz''
   \<and> fst (getVisualization 301000 ''k'' (setVisualization 1000 ''k'' ''viz'' (CacheManager_new blank_heap :: (unit, unit, string) CacheManager)))
     = None
   \<and> fst (getMapInstance 2000 ''k'' (setMapInstance 1000 ''k'' () (CacheManager_new blank_heap :: (unit, unit, string) CacheManager)))
     = Some ()
   \<and> fst (getMapInstance 301000 ''k'' (setMapInstance 1000 ''k'' () (CacheManager_new blank_heap :: (unit, unit, string) CacheManager)))
     = None"
  using C1_ttl_expiration [of 1001 2000 1000 "CacheManager_new blank_heap :: (unit, unit, string) CacheManager"
      "''k''" 7 301000 301001 "''viz''" "()"]
  by (simp add: CacheManager_new_def)

text \<open>
  Claim C8. The claim is that a cleanup pass follows every set operation of the three
  caches, so that no cache holds an entry older than \<open>CACHE_DURATION\<close> right after a set.
  \<^verbatim>\<open>setData\<close> does run \<^verbatim>\<open>cleanup\<close> (lemma \<open>setData_sweeps_all\<close>), but
  \<^verbatim>\<open>setVisualization\<close> does not: with an entry written at time 0, a
  \<^verbatim>\<open>setVisualization\<close> of another key at time 400000 leaves that entry in the cache, at
  an age above the 300000 ms of \<open>CACHE_DURATION\<close>.
\<close>

theorem C8_setVisualization_keeps_stale_entry:
  "visualizationCache (setVisualization 400000 ''new'' ''second'' stale_viz_cache) ''old''
      = Some \<lparr>data = ''first'', data_timestamp = 0\<rparr>
   \<and> CACHE_DURATION (setVisualization 400000 ''new'' ''second'' stale_viz_cache) < 400000 - 0
   \<and> holds_older_than 400000 (setVisualization 400000 ''new'' ''second'' stale_viz_cache) ''old''"
  by (simp add: holds_older_than_def setVisualization_def stale_viz_cache_def CacheManager_new_def)

text \<open>
  Claim C9. \<^verbatim>\<open>setData(key, data)\<close> writes the insertion time into the caller's own
  object: after the call the object behind the caller's reference carries the timestamp
  and is otherwise unchanged. A later \<^verbatim>\<open>getData(key)\<close>, within the duration, returns the
  same reference; and when a holder of the reference changes the object (keeping the
  timestamp), the object read through the reference that \<^verbatim>\<open>getData\<close> returns is the
  changed one.
\<close>

theorem C9_setData_aliases_argument:
  "heap (setData t t' k r c) r = (heap c r)\<lparr>timestamp := Some t\<rparr>
   \<and> (t' \<le> now \<and> now - t < CACHE_DURATION c \<longrightarrow>
        fst (getData now k (setData t t' k r c)) = Some r)
   \<and> (t' \<le> now \<and> now - t < CACHE_DURATION c
        \<and> timestamp (f ((heap c r)\<lparr>timestamp := Some t\<rparr>)) = Some t \<longrightarrow>
        fst (getData now k (mutate r f (setData t t' k r c))) = Some r
        \<and> heap (snd (getData now k (mutate r f (setData t t' k r c)))) r
            = f ((heap c r)\<lparr>timestamp := Some t\<rparr>))"
proof (intro conjI impI)
  let ?c1 = "setData t t' k r c"
  show h: "heap ?c1 r = (heap c r)\<lparr>timestamp := Some t\<rparr>"
    by (simp add: setData_heap)
  {
    assume a: "t' \<le> now \<and> now - t < CACHE_DURATION c"
    then have "dataCache ?c1 k = Some r" by (simp add: setData_entry)
    with a h show "fst (getData now k ?c1) = Some r"
      by (simp add: getData_fresh [where ts = t] setData_duration)
  }
  {
    assume a: "t' \<le> now \<and> now - t < CACHE_DURATION c
        \<and> timestamp (f ((heap c r)\<lparr>timestamp := Some t\<rparr>)) = Some t"
    let ?c2 = "mutate r f ?c1"
    have e: "dataCache ?c2 k = Some r" using a by (simp add: mutate_def setData_entry)
    have h2: "heap ?c2 r = f ((heap c r)\<lparr>timestamp := Some t\<rparr>)"
      by (simp add: mutate_def h)
    have d: "CACHE_DURATION ?c2 = CACHE_DURATION c" by (simp add: mutate_def setData_duration)
    from a e h2 d have g: "getData now k ?c2 = (Some r, ?c2)"
      by (simp add: getData_fresh [where ts = t])
    from g show "fst (getData now k ?c2) = Some r" by simp
    from g h2 show "heap (snd (getData now k ?c2)) r = f ((heap c r)\<lparr>timestamp := Some t\<rparr>)" by simp
  }
qed

theorem C9_setData_aliases_argument_witness:
  "heap (setData 1000 1001 ''k'' 7 (CacheManager_new labelled_heap :: (string, unit, unit) CacheManager)) 7
      = \<lparr>timestamp = Some 1000, props = ''raw''\<rparr>
   \<and> fst (getData 2000 ''k'' (setData 1000 1001 ''k'' 7 (CacheManager_new labelled_heap :: (string, unit, unit) CacheManager))) = Some 7
   \<and> fst (getData 2000 ''k'' (mutate 7 relabel (setData 1000 1001 ''k'' 7 (CacheManager_new labelled_heap :: (string, unit, unit) CacheManager)))) = Some 7
   \<and> heap (snd (getData 2000 ''k'' (mutate 7 relabel (setData 1000 1001 ''k'' 7 (CacheManager_new labelled_heap :: (string, unit, unit) CacheManager))))) 7
      = \<lparr>timestamp = Some 1000, props = ''edited''\<rparr>"
  using C9_setData_aliases_argument [of 1000 1001 "''k''" 7 "CacheManager_new labelled_heap :: (string, unit, unit) CacheManager" 2000 relabel]
  by (simp add: CacheManager_new_def labelled_heap_def relabel_def)

section \<open>Properties of the LazyLoader\<close>

lemma in_flight_invI:
  assumes "\<And>p m. loadingPromises s m = Some p \<Longrightarrow>
             p < length (scripts s) \<and> scripts s ! p = m \<and> p \<notin> settled s"
    and "\<And>p. p < length (scripts s) \<Longrightarrow> p \<notin> settled s \<Longrightarrow>
             loadingPromises s (scripts s ! p) = Some p"
    and "\<And>p. p \<in> settled s \<Longrightarrow> p < length (scripts s)"
  shows "in_flight_inv s"
  using assms unfolding in_flight_inv_def by blast

lemma in_flight_marker:
  "in_flight_inv s \<Longrightarrow> loadingPromises s m = Some p \<Longrightarrow>
   p < length (scripts s) \<and> scripts s ! p = m \<and> p \<notin> settled s"
  unfolding in_flight_inv_def by blast

lemma in_flight_script:
  "in_flight_inv s \<Longrightarrow> p < length (scripts s) \<Longrightarrow> p \<notin> settled s \<Longrightarrow>
   loadingPromises s (scripts s ! p) = Some p"
  unfolding in_flight_inv_def by blast

lemma in_flight_settled: "in_flight_inv s \<Longrightarrow> p \<in> settled s \<Longrightarrow> p < length (scripts s)"
  unfolding in_flight_inv_def by blast

lemma in_flight_inv_new: "in_flight_inv LazyLoader_new"
  by (simp add: in_flight_inv_def LazyLoader_new_def)

lemma in_flight_inv_begin:
  assumes inv: "in_flight_inv s"
  shows "in_flight_inv (snd (loadModule_begin moduleName s))"
proof (cases "moduleName \<in> loadedModules s \<or> loadingPromises s moduleName \<noteq> None")
  case True
  then have "snd (loadModule_begin moduleName s) = s"
    by (cases "loadingPromises s moduleName") (simp_all add: loadModule_begin_def)
  with inv show ?thesis by simp
next
  case False
  let ?s' = "s\<lparr>scripts := scripts s @ [moduleName],
           loadingPromises := (loadingPromises s)(moduleName \<mapsto> length (scripts s))\<rparr>"
  from False have s': "snd (loadModule_begin moduleName s) = ?s'"
    by (simp add: loadModule_begin_def loadModuleFile_def)
  from False have none: "loadingPromises s moduleName = None" by simp
  have "in_flight_inv ?s'"
  proof (rule in_flight_invI)
    fix p m
    assume a: "loadingPromises ?s' m = Some p"
    show "p < length (scripts ?s') \<and> scripts ?s' ! p = m \<and> p \<notin> settled ?s'"
    proof (cases "m = moduleName")
      case True
      with a have p: "p = length (scripts s)" by simp
      have "p \<notin> settled s"
        using in_flight_settled [OF inv, of p] p by auto
      with p True show ?thesis by simp
    next
      case False
      with a have "loadingPromises s m = Some p" by simp
      from in_flight_marker [OF inv this] show ?thesis by (simp add: nth_append)
    qed
  next
    fix p
    assume lt: "p < length (scripts ?s')" and ns: "p \<notin> settled ?s'"
    show "loadingPromises ?s' (scripts ?s' ! p) = Some p"
    proof (cases "p < length (scripts s)")
      case True
      with ns inv have m: "loadingPromises s (scripts s ! p) = Some p"
        by (simp add: in_flight_script)
      with none have "scripts s ! p \<noteq> moduleName" by auto
      with m True show ?thesis by (simp add: nth_append)
    next
      case False
      with lt have "p = length (scripts s)" by simp
      then show ?thesis by simp
    qed
  next
    fix p
    assume "p \<in> settled ?s'"
    with in_flight_settled [OF inv, of p] show "p < length (scripts ?s')" by simp
  qed
  with s' show ?thesis by simp
qed

lemma in_flight_inv_settle:
  assumes inv: "in_flight_inv s"
  shows "in_flight_inv (loader_step (Settle q rejection) s)"
proof (cases "q < length (scripts s) \<and> q \<notin> settled s")
  case False
  then have "loader_step (Settle q rejection) s = s" by (simp only: loader_step.simps(2) if_False)
  with inv show ?thesis by (simp only:)
next
  case True
  with inv have cur: "loadingPromises s (scripts s ! q) = Some q"
    by (simp add: in_flight_script)
  have gen: "in_flight_inv (s\<lparr>settled := insert q (settled s),
                         loadedModules := L,
                         loadingPromises := (loadingPromises s)(scripts s ! q := None)\<rparr>)"
    (is "in_flight_inv ?s'") for L
  proof (rule in_flight_invI)
    fix p m
    assume a: "loadingPromises ?s' m = Some p"
    then have ne: "m \<noteq> scripts s ! q" and old: "loadingPromises s m = Some p"
      by (auto split: if_splits)
    from in_flight_marker [OF inv old] ne
    show "p < length (scripts ?s') \<and> scripts ?s' ! p = m \<and> p \<notin> settled ?s'" by auto
  next
    fix p
    assume lt: "p < length (scripts ?s')" and ns: "p \<notin> settled ?s'"
    then have "p < length (scripts s)" "p \<notin> settled s" "p \<noteq> q" by auto
    with inv have m: "loadingPromises s (scripts s ! p) = Some p"
      by (simp add: in_flight_script)
    have "scripts s ! p \<noteq> scripts s ! q"
    proof
      assume eq: "scripts s ! p = scripts s ! q"
      from m have "loadingPromises s (scripts s ! q) = Some p" by (simp only: eq)
      with cur have "Some q = Some p" by (simp only:)
      then have "p = q" by simp
      with \<open>p \<noteq> q\<close> show False by simp
    qed
    with m show "loadingPromises ?s' (scripts ?s' ! p) = Some p" by simp
  next
    fix p
    assume "p \<in> settled ?s'"
    with True in_flight_settled [OF inv, of p] show "p < length (scripts ?s')" by auto
  qed
  show ?thesis
  proof (cases rejection)
    case None
    with True gen [of "insert (scripts s ! q) (loadedModules s)"] show ?thesis
      by (simp add: loadModule_resume_def)
  next
    case (Some e)
    with True gen [of "loadedModules s"] show ?thesis
      by (simp add: loadModule_resume_def)
  qed
qed

lemma in_flight_inv_step: "in_flight_inv s \<Longrightarrow> in_flight_inv (loader_step e s)"
proof (cases e)
  case (Load moduleName)
  assume "in_flight_inv s"
  with Load show ?thesis by (simp add: in_flight_inv_begin)
next
  case (Settle q rejection)
  assume "in_flight_inv s"
  with Settle show ?thesis by (simp only: in_flight_inv_settle)
qed

lemma in_flight_inv_run: "in_flight_inv s \<Longrightarrow> in_flight_inv (loader_run es s)"
  by (induction es arbitrary: s) (simp_all add: in_flight_inv_step)

lemma distinct_all_equal: "distinct xs \<Longrightarrow> (\<And>x. x \<in> set xs \<Longrightarrow> x = a) \<Longrightarrow> length xs \<le> 1"
proof -
  assume d: "distinct xs" and e: "\<And>x. x \<in> set xs \<Longrightarrow> x = a"
  then have "set xs \<subseteq> {a}" by auto
  then have "card (set xs) \<le> card {a}" by (intro card_mono) simp_all
  with d show ?thesis by (simp add: distinct_card)
qed

lemma outstanding_marker:
  assumes "in_flight_inv s" and "x \<in> set (outstanding s moduleName)"
  shows "loadingPromises s moduleName = Some x"
proof -
  from assms(2) have "x < length (scripts s)" "x \<notin> settled s" "scripts s ! x = moduleName"
    by (simp_all add: outstanding_def)
  with in_flight_script [OF assms(1), of x] show ?thesis by simp
qed

lemma outstanding_at_most_one: "in_flight_inv s \<Longrightarrow> length (outstanding s moduleName) \<le> 1"
proof -
  assume inv: "in_flight_inv s"
  have d: "distinct (outstanding s moduleName)" by (simp add: outstanding_def)
  show ?thesis
  proof (cases "loadingPromises s moduleName")
    case None
    have "x = 0" if "x \<in> set (outstanding s moduleName)" for x
      using outstanding_marker [OF inv that] None by simp
    with d show ?thesis by (rule distinct_all_equal)
  next
    case (Some q)
    have "x = q" if "x \<in> set (outstanding s moduleName)" for x
      using outstanding_marker [OF inv that] Some by simp
    with d show ?thesis by (rule distinct_all_equal)
  qed
qed

lemma loadModule_calls_in_flight:
  "moduleName \<notin> loadedModules s \<Longrightarrow> loadingPromises s moduleName = Some p \<Longrightarrow>
   loadModule_calls moduleName n s = (replicate n (Following p), s)"
  by (induction n) (simp_all add: loadModule_begin_def)

lemma loadModule_calls_first:
  assumes "moduleName \<notin> loadedModules s" and "loadingPromises s moduleName = None"
  shows "loadModule_calls moduleName (Suc n) s
     = (Awaiting (length (scripts s)) # replicate n (Following (length (scripts s))),
        s\<lparr>scripts := scripts s @ [moduleName],
          loadingPromises := (loadingPromises s)(moduleName \<mapsto> length (scripts s))\<rparr>)"
proof -
  let ?s1 = "s\<lparr>scripts := scripts s @ [moduleName],
          loadingPromises := (loadingPromises s)(moduleName \<mapsto> length (scripts s))\<rparr>"
  have b: "loadModule_begin moduleName s = (Awaiting (length (scripts s)), ?s1)"
    using assms by (simp add: loadModule_begin_def loadModuleFile_def)
  have "loadModule_calls moduleName n ?s1 = (replicate n (Following (length (scripts s))), ?s1)"
    using assms by (intro loadModule_calls_in_flight) simp_all
  with b show ?thesis by simp
qed

lemma resume_is_awaiting_result:
  "fst (loadModule_resume moduleName rejection s) = settled_result (Awaiting p) rejection"
  by (cases rejection) (simp_all add: loadModule_resume_def settled_result_def)

text \<open>
  Claim C3, as stated, fails in one part: the callers do not all receive the same pending
  result. Of two calls made in a row for a module that is not loaded, the first holds the
  promise of its own continuation, which fulfils with \<^verbatim>\<open>undefined\<close>, and the second holds
  the stored script promise, which fulfils with the load event.
\<close>

theorem C3_first_reply_differs:
  "fst (loadModule_calls ''x'' (Suc (Suc 0)) LazyLoader_new) = [Awaiting 0, Following 0]
   \<and> Awaiting 0 \<noteq> Following 0
   \<and> settled_result (Awaiting 0) None = Inr Undefined
   \<and> settled_result (Following 0) None = Inr (LoadEvent 0)
   \<and> settled_result (Awaiting 0) None \<noteq> settled_result (Following 0) None"
proof -
  have "''x'' \<notin> loadedModules LazyLoader_new" "loadingPromises LazyLoader_new ''x'' = None"
    by (simp_all add: LazyLoader_new_def)
  from loadModule_calls_first [OF this, of "Suc 0"]
  have "fst (loadModule_calls ''x'' (Suc (Suc 0)) LazyLoader_new) = [Awaiting 0, Following 0]"
    by (simp add: LazyLoader_new_def)
  then show ?thesis by (simp add: settled_result_def)
qed

text \<open>
  Claim C3, amended. In every state that the page reaches from a new loader, at most one
  load of a given module is under way. From a state in which the module is neither loaded
  nor loading, \<open>n > 0\<close> calls of \<^verbatim>\<open>loadModule\<close> with no completion in between append
  exactly one script, and the outcome of every caller's promise is decided by that one
  script promise: when it is rejected, all \<open>n\<close> promises are rejected with its error; when
  it is fulfilled, the first caller's promise fulfils with \<^verbatim>\<open>undefined\<close> and the others
  with the load event. A module that is loaded resolves at once, with no change of state.
  When a load fails, the first caller's promise is rejected with the error, the marker is
  removed, the module is not recorded as loaded, and the next call appends a fresh script.
\<close>

theorem C3_single_flight:
  "length (outstanding (loader_run es LazyLoader_new) moduleName) \<le> 1
   \<and> (moduleName \<notin> loadedModules s \<and> loadingPromises s moduleName = None \<and> 0 < n \<longrightarrow>
        fst (loadModule_calls moduleName n s)
          = Awaiting (length (scripts s)) # replicate (n - 1) (Following (length (scripts s)))
        \<and> map decided_by (fst (loadModule_calls moduleName n s))
          = replicate n (Some (length (scripts s)))
        \<and> map (\<lambda>reply. settled_result reply (Some e)) (fst (loadModule_calls moduleName n s))
          = replicate n (Inl e)
        \<and> map (\<lambda>reply. settled_result reply None) (fst (loadModule_calls moduleName n s))
          = Inr Undefined # replicate (n - 1) (Inr (LoadEvent (length (scripts s))))
        \<and> scripts (snd (loadModule_calls moduleName n s)) = scripts s @ [moduleName])
   \<and> (moduleName \<in> loadedModules s' \<longrightarrow> loadModule_begin moduleName s' = (Resolved, s'))
   \<and> (moduleName \<notin> loadedModules s'' \<longrightarrow>
        fst (loadModule_resume moduleName (Some e) s'') = Inl e
        \<and> loadingPromises (snd (loadModule_resume moduleName (Some e) s'')) moduleName = None
        \<and> moduleName \<notin> loadedModules (snd (loadModule_resume moduleName (Some e) s''))
        \<and> scripts (snd (loadModule_begin moduleName (snd (loadModule_resume moduleName (Some e) s''))))
            = scripts s'' @ [moduleName])
   \<and> fst (loadModule_resume moduleName rejection s'') = settled_result (Awaiting p) rejection"
proof (intro conjI impI)
  show "length (outstanding (loader_run es LazyLoader_new) moduleName) \<le> 1"
    by (intro outstanding_at_most_one in_flight_inv_run in_flight_inv_new)
  show "fst (loadModule_resume moduleName rejection s'') = settled_result (Awaiting p) rejection"
    by (rule resume_is_awaiting_result)
  {
    assume a: "moduleName \<notin> loadedModules s \<and> loadingPromises s moduleName = None \<and> 0 < n"
    then obtain m where n: "n = Suc m" by (cases n) simp_all
    from a have c: "loadModule_calls moduleName (Suc m) s
     = (Awaiting (length (scripts s)) # replicate m (Following (length (scripts s))),
        s\<lparr>scripts := scripts s @ [moduleName],
          loadingPromises := (loadingPromises s)(moduleName \<mapsto> length (scripts s))\<rparr>)"
      by (intro loadModule_calls_first) simp_all
    show "fst (loadModule_calls moduleName n s)
          = Awaiting (length (scripts s)) # replicate (n - 1) (Following (length (scripts s)))"
      unfolding n c by simp
    show "map decided_by (fst (loadModule_calls moduleName n s))
          = replicate n (Some (length (scripts s)))"
      unfolding n c by (simp add: decided_by_def)
    show "map (\<lambda>reply. settled_result reply (Some e)) (fst (loadModule_calls moduleName n s))
          = replicate n (Inl e)"
      unfolding n c by (simp add: settled_result_def)
    show "map (\<lambda>reply. settled_result reply None) (fst (loadModule_calls moduleName n s))
          = Inr Undefined # replicate (n - 1) (Inr (LoadEvent (length (scripts s))))"
      unfolding n c by (simp add: settled_result_def)
    show "scripts (snd (loadModule_calls moduleName n s)) = scripts s @ [moduleName]"
      unfolding n c by simp
  }
  {
    assume "moduleName \<in> loadedModules s'"
    then show "loadModule_begin moduleName s' = (Resolved, s')"
      by (simp add: loadModule_begin_def)
  }
  {
    assume a: "moduleName \<notin> loadedModules s''"
    show "fst (loadModule_resume moduleName (Some e) s'') = Inl e"
      by (simp add: loadModule_resume_def)
    show "loadingPromises (snd (loadModule_resume moduleName (Some e) s'')) moduleName = None"
      by (simp add: loadModule_resume_def)
    from a show "moduleName \<notin> loadedModules (snd (loadModule_resume moduleName (Some e) s''))"
      by (simp add: loadModule_resume_def)
    from a show "scripts (snd (loadModule_begin moduleName (snd (loadModule_resume moduleName (Some e) s''))))
            = scripts s'' @ [moduleName]"
      by (simp add: loadModule_resume_def loadModule_begin_def loadModuleFile_def)
  }
qed

theorem C3_single_flight_witness:
  "fst (loadModule_calls ''x'' 10 LazyLoader_new) = Awaiting 0 # replicate (10 - 1) (Following 0)
   \<and> map decided_by (fst (loadModule_calls ''x'' 10 LazyLoader_new)) = replicate 10 (Some 0)
   \<and> scripts (snd (loadModule_calls ''x'' 10 LazyLoader_new)) = [''x'']
   \<and> ''x'' \<in> loadedModules loaded_x
   \<and> loadModule_begin ''x'' loaded_x = (Resolved, loaded_x)
   \<and> ''x'' \<notin> loadedModules loading_x
   \<and> loadingPromises loading_x ''x'' = Some 0
   \<and> loadingPromises (snd (loadModule_resume ''x'' (Some (Error ''404'')) loading_x)) ''x'' = None
   \<and> scripts (snd (loadModule_begin ''x'' (snd (loadModule_resume ''x'' (Some (Error ''404'')) loading_x))))
        = [''x'', ''x'']"
proof -
  have h1: "''x'' \<notin> loadedModules LazyLoader_new \<and> loadingPromises LazyLoader_new ''x'' = None
            \<and> (0::nat) < 10"
    by (simp add: LazyLoader_new_def)
  have s0: "scripts LazyLoader_new = []" by (simp add: LazyLoader_new_def)
  have h2: "''x'' \<in> loadedModules loaded_x"
    by (simp add: loaded_x_def LazyLoader_new_def loadModule_begin_def loadModuleFile_def
        loadModule_resume_def)
  have h3: "''x'' \<notin> loadedModules loading_x \<and> loadingPromises loading_x ''x'' = Some 0
            \<and> scripts loading_x = [''x'']"
    by (simp add: loading_x_def LazyLoader_new_def loadModule_begin_def loadModuleFile_def)
  note T = C3_single_flight [of "[]" "''x''" LazyLoader_new 10 "Error ''404''" loaded_x loading_x
      None 0]
  note A = T [THEN conjunct2, THEN conjunct1, THEN mp, OF h1]
  note B = T [THEN conjunct2, THEN conjunct2, THEN conjunct1, THEN mp, OF h2]
  note C = T [THEN conjunct2, THEN conjunct2, THEN conjunct2, THEN conjunct1, THEN mp,
      OF h3 [THEN conjunct1]]
  have A1: "fst (loadModule_calls ''x'' 10 LazyLoader_new)
              = Awaiting 0 # replicate (10 - 1) (Following 0)"
    using A [THEN conjunct1] by (simp only: s0 list.size)
  have A2: "map decided_by (fst (loadModule_calls ''x'' 10 LazyLoader_new)) = replicate 10 (Some 0)"
    using A [THEN conjunct2, THEN conjunct1] by (simp only: s0 list.size)
  have A3: "scripts (snd (loadModule_calls ''x'' 10 LazyLoader_new)) = [''x'']"
    using A [THEN conjunct2, THEN conjunct2, THEN conjunct2, THEN conjunct2]
    by (simp only: s0 append_Nil)
  note C1 = C [THEN conjunct2, THEN conjunct1]
  have C2: "scripts (snd (loadModule_begin ''x'' (snd (loadModule_resume ''x'' (Some (Error ''404'')) loading_x))))
        = [''x'', ''x'']"
    using C [THEN conjunct2, THEN conjunct2, THEN conjunct2]
    by (simp only: h3 [THEN conjunct2, THEN conjunct2] append_Cons append_Nil)
  show ?thesis
    by (intro conjI A1 A2 A3 h2 B h3 [THEN conjunct1] h3 [THEN conjunct2, THEN conjunct1] C1 C2)
qed


section \<open>Properties of the BatchProcessor and of the sampling\<close>

declare processBatch_loop.simps [simp del]
declare samplePoints_loop.simps [simp del]
declare chunks_of.simps [simp del]

lemma chunks_of_step:
  "0 < n \<Longrightarrow> xs \<noteq> [] \<Longrightarrow> chunks_of n xs = take n xs # chunks_of n (drop n xs)"
  by (subst chunks_of.simps) simp

lemma chunks_of_Nil: "chunks_of n [] = []"
  by (subst chunks_of.simps) simp

lemma createChunks_loop_terminates:
  "0 < size' \<Longrightarrow>
   createChunks_loop array size' i chunks = Some (chunks @ chunks_of size' (drop i array))"
proof (induction "length array - i" arbitrary: i chunks rule: less_induct)
  case less
  show ?case
  proof (cases "i < length array")
    case True
    with less.prems have "length array - (i + size') < length array - i" by arith
    from less.hyps [OF this less.prems]
    have "createChunks_loop array size' (i + size') (chunks @ [slice array i (i + size')])
            = Some ((chunks @ [slice array i (i + size')]) @ chunks_of size' (drop (i + size') array))" .
    moreover have "drop i array \<noteq> []" using True by simp
    then have "chunks_of size' (drop i array)
                 = take size' (drop i array) # chunks_of size' (drop (i + size') array)"
      using less.prems by (simp add: chunks_of_step add.commute)
    ultimately show ?thesis
      using True by (subst createChunks_loop.simps) (simp add: slice_def)
  next
    case False
    then show ?thesis
      by (subst createChunks_loop.simps) (simp add: chunks_of_Nil)
  qed
qed

lemma createChunks_eq: "0 < size' \<Longrightarrow> createChunks array size' = Some (chunks_of size' array)"
  by (simp add: createChunks_def createChunks_loop_terminates)

lemma concat_chunks_of: "0 < n \<Longrightarrow> concat (chunks_of n xs) = xs"
proof (induction n xs rule: chunks_of.induct)
  case (1 n xs)
  then show ?case
    by (cases "xs = []") (simp_all add: chunks_of_Nil chunks_of_step)
qed






lemma processBatch_loop_per_item:
  "processor = per_item f \<Longrightarrow>
   outcome (processBatch_loop processor progress chunks i results ev)
     = Inr (results @ concat (map (map f) (drop i chunks)))"
proof (induction processor progress chunks i results ev rule: processBatch_loop.induct)
  case (1 processor progress chunks i results ev)
  show ?case
  proof (cases "i < length chunks")
    case True
    have d: "drop i chunks = chunks ! i # drop (Suc i) chunks"
      using True by (simp add: Cons_nth_drop_Suc)
    have p: "processor (chunks ! i) = Inr (map f (chunks ! i))"
      using "1.prems" by (simp add: per_item_def)
    from "1.IH" [OF True refl refl p "1.prems"] True p d show ?thesis
      by (subst processBatch_loop.simps) (simp add: Let_def)
  next
    case False
    then show ?thesis by (subst processBatch_loop.simps) simp
  qed
qed

lemma or_default_pos: "0 < d \<Longrightarrow> 0 < or_default v d"
  by (simp add: or_default_def split: option.splits)

lemma processBatch_eq:
  "0 < chunkSize bp \<Longrightarrow>
   processBatch bp items processor options =
     Some (processBatch_loop processor (onProgress options)
            (chunks_of (or_default (chunkSize_opt options) (chunkSize bp)) items) 0 [] [])"
  by (simp add: processBatch_def Let_def createChunks_eq or_default_pos)


lemma processBatch_per_item:
  "0 < chunkSize bp \<Longrightarrow>
   map_option outcome (processBatch bp items (per_item f) options) = Some (Inr (map f items))"
proof -
  assume bp: "0 < chunkSize bp"
  let ?n = "or_default (chunkSize_opt options) (chunkSize bp)"
  have pos: "0 < ?n" using bp by (rule or_default_pos)
  have "concat (map (map f) (chunks_of ?n items)) = map f (concat (chunks_of ?n items))"
    by (simp add: map_concat)
  also have "\<dots> = map f items" using pos by (simp add: concat_chunks_of)
  finally show ?thesis
    using bp by (simp add: processBatch_eq processBatch_loop_per_item)
qed

text \<open>
  Claim C2. For every list of items, every chunk size of at least 1 and every transform that
  works item by item, \<^verbatim>\<open>processBatch\<close> returns, and what it returns is the transform
  mapped over the items in their order; the result is as long as the input. Where the
  chunk boundaries fall plays no role.
\<close>

theorem C2_batch_order:
  "1 \<le> n \<Longrightarrow>
   map_option outcome
     (processBatch BatchProcessor_new items (per_item f) \<lparr>chunkSize_opt = Some n, onProgress = g\<rparr>)
     = Some (Inr (map f items))
   \<and> length (map f items) = length items"
  by (simp add: processBatch_per_item BatchProcessor_new_def)

theorem C2_batch_order_witness:
  "(1::nat) \<le> 2 \<and>
   map_option outcome
     (processBatch BatchProcessor_new [10, 20, 30, 40, 50 :: nat] (per_item (\<lambda>x. x + 100))
        \<lparr>chunkSize_opt = Some 2, onProgress = False\<rparr>)
     = Some (Inr [110, 120, 130, 140, 150 :: nat])"
  using C2_batch_order [of 2 "[10, 20, 30, 40, 50 :: nat]" "\<lambda>x. x + 100" False] by simp

text \<open>
  Claim C10. With \<^verbatim>\<open>options.chunkSize\<close> equal to 0, or absent, \<^verbatim>\<open>processBatch\<close> of a
  new BatchProcessor does exactly what it does with chunk size 1000, and it returns: the
  chunks are those of size 1000.
\<close>

theorem C10_zero_chunk_size:
  "processBatch BatchProcessor_new items processor (options\<lparr>chunkSize_opt := Some 0\<rparr>)
     = processBatch BatchProcessor_new items processor (options\<lparr>chunkSize_opt := Some 1000\<rparr>)
   \<and> processBatch BatchProcessor_new items processor (options\<lparr>chunkSize_opt := None\<rparr>)
     = processBatch BatchProcessor_new items processor (options\<lparr>chunkSize_opt := Some 1000\<rparr>)
   \<and> processBatch BatchProcessor_new items processor (options\<lparr>chunkSize_opt := Some 0\<rparr>)
     = Some (processBatch_loop processor (onProgress options) (chunks_of 1000 items) 0 [] [])"
  by (simp add: processBatch_eq BatchProcessor_new_def or_default_def)







lemma samplePoints_loop_prefix:
  "i \<le> maxPoints \<Longrightarrow> i \<le> length points \<Longrightarrow>
   samplePoints_loop randomIndex points maxPoints i (take i points) = take maxPoints points"
proof (induction "maxPoints - i" arbitrary: i)
  case 0
  then have e: "i = maxPoints" by simp
  with "0.prems" have "\<not> length (take i points) < maxPoints" by simp
  with e show ?case by (subst samplePoints_loop.simps) simp
next
  case (Suc d)
  then have lt: "i < maxPoints" by arith
  show ?case
  proof (cases "i < length points")
    case True
    have t: "take i points @ [points ! i] = take (i + 1) points"
      using True by (simp add: take_Suc_conv_app_nth)
    have "samplePoints_loop randomIndex points maxPoints (i + 1) (take (i + 1) points)
            = take maxPoints points"
      using Suc.hyps(2) lt True by (intro Suc.hyps(1)) simp_all
    with True lt t show ?thesis
      by (subst samplePoints_loop.simps) simp
  next
    case False
    with Suc.prems lt have "take i points = take maxPoints points" by simp
    with False show ?thesis by (subst samplePoints_loop.simps) simp
  qed
qed

text \<open>
  Claim C5. The claim is that \<^verbatim>\<open>_samplePoints\<close> selects the points uniformly over the
  whole input, so that some outcomes hold points from beyond the first \<open>maxPoints\<close>
  positions. The loop stops as soon as \<^verbatim>\<open>sampled.length\<close> reaches \<open>maxPoints\<close>, which
  is before the branch that draws a random index is ever taken: whatever the random
  draws, the result is the prefix of the input.
\<close>

theorem C5_sample_is_prefix:
  "samplePoints randomIndex points maxPoints = take maxPoints points"
  using samplePoints_loop_prefix [of 0 maxPoints points randomIndex]
  by (simp add: samplePoints_def)

section \<open>Properties of the renderer\<close>














lemma array_map_marker:
  "\<exists>fs. array_map (marker_feature ra) i (map Some pts) = Inr fs
        \<and> map coordinates fs = map (\<lambda>p. (lon p, lat p)) pts"
proof (induction pts arbitrary: i)
  case Nil
  show ?case by simp
next
  case (Cons p pts)
  from Cons.IH [of "i + 1"] obtain fs
    where fs: "array_map (marker_feature ra) (i + 1) (map Some pts) = Inr fs"
      and co: "map coordinates fs = map (\<lambda>p. (lon p, lat p)) pts" by blast
  have f: "marker_feature ra i (Some p)
             = Inr \<lparr>coordinates = (lon p, lat p), properties = MarkerProperties i (ra i)\<rparr>"
    by (simp add: marker_feature_def)
  from fs co f show ?case by simp
qed

lemma ready_renderer_cache_miss:
  "getVisualization now key (cacheManager ready_renderer) = (None, cacheManager ready_renderer)"
  by (simp add: getVisualization_def ready_renderer_def CacheManager_new_def)

lemma recording_host_ops:
  "addSource recording_host m sid spec = Inr (m\<lparr>sources := sources m @ [(sid, spec)]\<rparr>)"
  "addLayer recording_host m l = Inr (m\<lparr>layer_list := layer_list m @ [l]\<rparr>)"
  "JSON_stringify recording_host options = ''{}''"
  "random_activity recording_host = (\<lambda>i. 1)"
  "random_index recording_host = (\<lambda>i. 0)"
  by (simp_all add: recording_host_def)

lemma ready_renderer_remove:
  "removeLayer_r recording_host lid ready_renderer = ready_renderer"
  "removeSource_r recording_host sid ready_renderer = ready_renderer"
  by (simp_all add: removeLayer_r_def removeSource_r_def ready_renderer_def recording_host_def)

lemma renderMarkers_success:
  assumes "fst (getVisualization now (''markers_'' @ JSON_stringify h options) (cacheManager r)) = None"
    and "renderMarkers_try h now' points options (''markers_'' @ JSON_stringify h options)
           (r\<lparr>cacheManager :=
               snd (getVisualization now (''markers_'' @ JSON_stringify h options) (cacheManager r))\<rparr>)
         = (None, r')"
  shows "renderMarkers h now now' points options r = (Inr (), r')"
  using assms by (simp add: renderMarkers_def Let_def split_beta)

lemma markers_on_ready_renderer:
  "length pts \<le> or_default (maxPoints_opt options) 5000 \<Longrightarrow>
   rendered_coordinates
     (snd (renderMarkers recording_host now now' (map Some pts) options ready_renderer))
     = [(''markers-source'', map (\<lambda>p. (lon p, lat p)) pts)]"
proof -
  assume le: "length pts \<le> or_default (maxPoints_opt options) 5000"
  obtain fs where fs: "array_map (marker_feature (random_activity recording_host)) 0 (map Some pts) = Inr fs"
      and co: "map coordinates fs = map (\<lambda>p. (lon p, lat p)) pts"
    using array_map_marker by blast
  let ?key = "''markers_'' @ JSON_stringify recording_host options"
  let ?r' = "ready_renderer\<lparr>map_r := Some \<lparr>sources = [(''markers-source'', \<lparr>features = fs, cluster = False\<rparr>)],
              layer_list = [\<lparr>layer_id = ''markers-layer'', layer_type = ''circle'',
                                              layer_source = ''markers-source''\<rparr>]\<rparr>,
            cacheManager := setVisualization now' ?key
                                    (Descriptor \<lparr>sourceId = ''markers-source'',
                                       layerId = ''markers-layer'', viz_type = ''markers''\<rparr>)
                                    (cacheManager ready_renderer)\<rparr>"
  have m: "map_r ready_renderer = Some \<lparr>sources = [], layer_list = []\<rparr>"
    by (simp add: ready_renderer_def)
  have miss: "fst (getVisualization now ?key (cacheManager ready_renderer)) = None"
    by (simp add: ready_renderer_cache_miss)
  have r0: "ready_renderer\<lparr>cacheManager := snd (getVisualization now ?key (cacheManager ready_renderer))\<rparr>
              = ready_renderer"
    by (simp add: ready_renderer_cache_miss)
  have "renderMarkers_try recording_host now' (map Some pts) options ?key ready_renderer = (None, ?r')"
    using le fs m
    by (simp add: renderMarkers_try_def Let_def ready_renderer_remove recording_host_ops)
  then have t: "renderMarkers_try recording_host now' (map Some pts) options ?key
      (ready_renderer\<lparr>cacheManager := snd (getVisualization now ?key (cacheManager ready_renderer))\<rparr>)
      = (None, ?r')"
    by (simp only: r0)
  from renderMarkers_success [OF miss t] co show ?thesis
    by (simp add: rendered_coordinates_def)
qed


lemma renderClusters_success:
  assumes "fst (getVisualization now (''clusters_'' @ JSON_stringify h options) (cacheManager r)) = None"
    and "renderClusters_try h now' points options (''clusters_'' @ JSON_stringify h options)
           (r\<lparr>cacheManager :=
               snd (getVisualization now (''clusters_'' @ JSON_stringify h options) (cacheManager r))\<rparr>)
         = (None, r')"
  shows "renderClusters h now now' points options r = (Inr (), r')"
  using assms by (simp add: renderClusters_def Let_def split_beta)


lemma recording_host_getLayer:
  "getLayer recording_host m lid = (lid \<in> set (map layer_id (layer_list m)))"
  "removeLayer recording_host m lid
     = Inr (m\<lparr>layer_list := filter (\<lambda>l. layer_id l \<noteq> lid) (layer_list m)\<rparr>)"
  by (simp_all add: recording_host_def)

lemma clusters_on_ready_renderer:
  assumes le: "length pts \<le> or_default (maxPoints_opt options) 10000"
  shows "rendered_coordinates
     (snd (renderClusters recording_host now now' (map Some pts) options ready_renderer))
     = [(''clusters-source'', map (\<lambda>p. (lon p, lat p)) pts)]"
proof -
  obtain fs where fs: "array_map (marker_feature (random_activity recording_host)) 0 (map Some pts) = Inr fs"
      and co: "map coordinates fs = map (\<lambda>p. (lon p, lat p)) pts"
    using array_map_marker by blast
  let ?key = "''clusters_'' @ JSON_stringify recording_host options"
  have m: "map_r ready_renderer = Some \<lparr>sources = [], layer_list = []\<rparr>"
    by (simp add: ready_renderer_def)
  have miss: "fst (getVisualization now ?key (cacheManager ready_renderer)) = None"
    by (simp add: ready_renderer_cache_miss)
  have r0: "ready_renderer\<lparr>cacheManager := snd (getVisualization now ?key (cacheManager ready_renderer))\<rparr>
              = ready_renderer"
    by (simp add: ready_renderer_cache_miss)
  obtain r' where "renderClusters_try recording_host now' (map Some pts) options ?key ready_renderer
        = (None, r')"
      and rc: "rendered_coordinates r' = [(''clusters-source'', map coordinates fs)]"
    using le fs m
    by (simp add: renderClusters_try_def Let_def ready_renderer_remove recording_host_ops
        removeLayer_r_def recording_host_getLayer rendered_coordinates_def)
  then have t: "renderClusters_try recording_host now' (map Some pts) options ?key
      (ready_renderer\<lparr>cacheManager := snd (getVisualization now ?key (cacheManager ready_renderer))\<rparr>)
      = (None, r')"
    by (simp only: r0)
  from renderClusters_success [OF miss t] co rc show ?thesis
    by simp
qed

text \<open>
  Claim C6, amended. \<^verbatim>\<open>renderMarkers\<close> and \<^verbatim>\<open>renderClusters\<close> do not look at the range
  of the coordinates: on a cache miss, every point of an input within the display cap,
  whatever its latitude and longitude, becomes one feature of the source handed to the
  backend, in order, with its coordinates \<^verbatim>\<open>[lon, lat]\<close> unchanged.
\<close>

theorem C6_points_not_validated:
  "(length pts \<le> or_default (maxPoints_opt options) 5000 \<longrightarrow>
      rendered_coordinates
        (snd (renderMarkers recording_host now now' (map Some pts) options ready_renderer))
        = [(''markers-source'', map (\<lambda>p. (lon p, lat p)) pts)])
   \<and> (length pts \<le> or_default (maxPoints_opt options) 10000 \<longrightarrow>
      rendered_coordinates
        (snd (renderClusters recording_host now now' (map Some pts) options ready_renderer))
        = [(''clusters-source'', map (\<lambda>p. (lon p, lat p)) pts)])"
  using markers_on_ready_renderer clusters_on_ready_renderer by blast

theorem C6_points_not_validated_witness:
  "rendered_coordinates
       (snd (renderMarkers recording_host 0 0 [Some \<lparr>lat = - 91, lon = 200\<rparr>]
               \<lparr>maxPoints_opt = None\<rparr> ready_renderer))
       = [(''markers-source'', [(200, - 91)])]
   \<and> rendered_coordinates
       (snd (renderClusters recording_host 0 0 [Some \<lparr>lat = - 91, lon = 200\<rparr>]
               \<lparr>maxPoints_opt = None\<rparr> ready_renderer))
       = [(''clusters-source'', [(200, - 91)])]"
  using C6_points_not_validated [of "[\<lparr>lat = - 91, lon = 200\<rparr>]" "\<lparr>maxPoints_opt = None\<rparr>" 0 0]
  by (simp add: or_default_def)

text \<open>
  Claim C6, as stated, fails: of the two points of the claim's example, the one with
  latitude 95 is not rejected; both reach the backend as features, from
  \<^verbatim>\<open>renderMarkers\<close> and from \<^verbatim>\<open>renderClusters\<close>.
\<close>

theorem C6_invalid_point_rendered:
  "rendered_coordinates
     (snd (renderMarkers recording_host 0 0
             [Some \<lparr>lat = 19.07, lon = 72.87\<rparr>, Some \<lparr>lat = 95, lon = 10\<rparr>]
             \<lparr>maxPoints_opt = None\<rparr> ready_renderer))
     = [(''markers-source'', [(72.87, 19.07), (10, 95)])]
   \<and> rendered_coordinates
     (snd (renderClusters recording_host 0 0
             [Some \<lparr>lat = 19.07, lon = 72.87\<rparr>, Some \<lparr>lat = 95, lon = 10\<rparr>]
             \<lparr>maxPoints_opt = None\<rparr> ready_renderer))
     = [(''clusters-source'', [(72.87, 19.07), (10, 95)])]
   \<and> \<not> (lat \<lparr>lat = 95, lon = 10\<rparr> \<le> 90)"
  using markers_on_ready_renderer
          [of "[\<lparr>lat = 19.07, lon = 72.87\<rparr>, \<lparr>lat = 95, lon = 10\<rparr>]" "\<lparr>maxPoints_opt = None\<rparr>" 0 0]
        clusters_on_ready_renderer
          [of "[\<lparr>lat = 19.07, lon = 72.87\<rparr>, \<lparr>lat = 95, lon = 10\<rparr>]" "\<lparr>maxPoints_opt = None\<rparr>" 0 0]
  by (simp add: or_default_def)
















end
